theory Spec2Isabelle
  imports Main "HOL-Library.Word" "HOL-Library.Multiset"
begin

unbundle bit_operations_syntax

section \<open>The rename engine of jsonnet-bundler (main.go)\<close>

text \<open>
  The engine renames the local binds of one Jsonnet file, and the variables that use them,
  to a name prefixed with a hash of the file name. The embedding follows the second
  program of \<^verbatim>\<open>src/main.go\<close> (the one with \<^verbatim>\<open>Context\<close>, lines 110 to 307).

  Conventions of the embedding.
  \<^item> Go's \<^verbatim>\<open>string\<close> and \<^verbatim>\<open>[]byte\<close> are byte sequences: \<^typ>\<open>string\<close>, with
    \<^term>\<open>length\<close> for \<^verbatim>\<open>len\<close>.
  \<^item> Go's \<^verbatim>\<open>int\<close> is the 64-bit signed integer of the platforms the program is built
    for. It is modelled by \<^typ>\<open>int\<close>, and every addition and subtraction on values that
    come from the syntax tree or from a table is wrapped to 64 bits by \<open>wrapInt\<close>, as Go
    does. The index of a byte in a buffer plus one is at most the length of the buffer
    and is written without the wrap.
  \<^item> A run-time panic (a slice expression out of range) and \<^verbatim>\<open>log.Fatal\<close> are values
    of \<open>failure\<close>; a function that can panic returns \<open>failure + 'a\<close>.
  \<^item> A byte slice is modelled by its visible bytes. The source buffer of the context
    also carries the bytes of its backing array that lie between its length and its
    capacity, because a slice expression on it is checked against the capacity.
  \<^item> \<^verbatim>\<open>ctx *Context\<close> is mutated in place by the two passes; the model passes the
    context in and returns the new one.
\<close>

datatype failure = Panic | Fatal

text \<open>
  The value of a Go \<^verbatim>\<open>int\<close> expression whose mathematical value is \<open>x\<close>: the
  representative of \<open>x\<close> modulo \<open>2^64\<close> between \<open>-2^63\<close> and \<open>2^63 - 1\<close>.
\<close>

definition wrapInt :: "int \<Rightarrow> int" where
  "wrapInt x = (x + 9223372036854775808) mod 18446744073709551616 - 9223372036854775808"

subsection \<open>Locations and syntax trees (package ast of go-jsonnet, package parser)\<close>

text \<open>
  \<^verbatim>\<open>ast.Location\<close> and \<^verbatim>\<open>ast.LocationRange\<close> of go-jsonnet: lines and columns are
  1-indexed, and a range is set when the line of its begin is not 0.
\<close>

record Location =
  Line :: int
  Column :: int

record LocationRange =
  Begin :: Location
  End :: Location

definition IsSet :: "LocationRange \<Rightarrow> bool" where
  "IsSet lr = (Line (Begin lr) \<noteq> 0)"

text \<open>\<^verbatim>\<open>ast.LocalBind\<close>: the fields the engine reads.\<close>

record LocalBind =
  Variable :: string
  LocRange :: LocationRange

text \<open>
  \<^verbatim>\<open>ast.Node\<close>, with the three cases the type switches of the engine tell apart:
  \<^verbatim>\<open>*ast.Var\<close>, \<^verbatim>\<open>*ast.Local\<close> and every other node. The last argument of each
  constructor is the list that \<^verbatim>\<open>parser.Children\<close> returns for the node.
\<close>

datatype Node =
    Var LocationRange string "Node list"
  | Local LocationRange "LocalBind list" "Node list"
  | Other LocationRange "Node list"

fun Loc :: "Node \<Rightarrow> LocationRange" where
  "Loc (Var l _ _) = l"
| "Loc (Local l _ _) = l"
| "Loc (Other l _) = l"

text \<open>
  Modelled from the spec: \<^verbatim>\<open>parser.Children\<close> of package
  \<^verbatim>\<open>github.com/nr8-io/jsonnet-bundler/pkg/parser\<close>, which is not among the sources:
  ``an ordered list of child nodes reachable via an external children(node) capability''.
\<close>

fun Children :: "Node \<Rightarrow> Node list" where
  "Children (Var _ _ cs) = cs"
| "Children (Local _ _ cs) = cs"
| "Children (Other _ cs) = cs"

subsection \<open>The name generator\<close>

text \<open>
  \<^verbatim>\<open>hash/fnv\<close>, \<^verbatim>\<open>New32a\<close>: the state starts at the offset basis 2166136261; every
  byte written is XORed into it and the state multiplied by the prime 16777619, in
  \<^verbatim>\<open>uint32\<close>.
\<close>

definition fnv32a_Write :: "32 word \<Rightarrow> string \<Rightarrow> 32 word" where
  "fnv32a_Write h data = fold (\<lambda>c s. (s XOR of_nat (of_char c)) * 16777619) data h"

definition fnv32a_Sum32 :: "string \<Rightarrow> 32 word" where
  "fnv32a_Sum32 data = fnv32a_Write 2166136261 data"

text \<open>
  \<^verbatim>\<open>fmt.Sprintf("%08x", v)\<close>: the digits of \<open>v\<close> in base 16, lower case, most
  significant first, padded on the left with \<open>0\<close> to a width of 8 (a longer number is
  not cut).
\<close>

definition hexDigit :: "int \<Rightarrow> char" where
  "hexDigit d = ''0123456789abcdef'' ! nat d"

function hexDigits :: "int \<Rightarrow> string" where
  "hexDigits n = (if n < 16 then [hexDigit n] else hexDigits (n div 16) @ [hexDigit (n mod 16)])"
  by pat_completeness auto
termination
  by (relation "measure nat") auto

declare hexDigits.simps [simp del]

definition sprintf_08x :: "32 word \<Rightarrow> string" where
  "sprintf_08x v = (let ds = hexDigits (uint v) in replicate (8 - length ds) (CHR ''0'') @ ds)"

definition hash :: "string \<Rightarrow> string" where
  "hash filename = ''_'' @ sprintf_08x (fnv32a_Sum32 filename)"

subsection \<open>The line offset index and the span resolver\<close>

fun buildLoop :: "int \<Rightarrow> string \<Rightarrow> int list \<Rightarrow> int list" where
  "buildLoop i [] offsets = offsets"
| "buildLoop i (b # bs) offsets =
     buildLoop (i + 1) bs (if b = CHR 0x0A then offsets @ [i + 1] else offsets)"

definition buildLineOffsets :: "string \<Rightarrow> int list" where
  "buildLineOffsets source = buildLoop 0 source [0]"

definition lineColToOffset :: "int list \<Rightarrow> int \<Rightarrow> int \<Rightarrow> int" where
  "lineColToOffset lineOffsets line col =
     (if line < 0 \<or> int (length lineOffsets) \<le> line then 0
      else wrapInt (lineOffsets ! nat line + col))"

subsection \<open>Replacements and the context\<close>

record Replacement =
  beginOffset :: int
  endOffset :: int
  newValue :: string

text \<open>
  \<^verbatim>\<open>source []byte\<close> is a slice: \<open>source\<close> holds its \<^verbatim>\<open>len(source)\<close> visible
  bytes and \<open>spare\<close> the bytes of its backing array from \<^verbatim>\<open>len(source)\<close> up to
  \<^verbatim>\<open>cap(source)\<close>. In \<^verbatim>\<open>main\<close> the slice is the one \<^verbatim>\<open>os.ReadFile\<close> returns.
\<close>

record Context =
  prefix :: string
  replacements :: "Replacement list"
  source :: string
  spare :: string
  lineOffsets :: "int list"
  localBinds :: "string set"

text \<open>
  The slice expression \<^verbatim>\<open>s[lo:hi]\<close> of Go on a slice \<open>s\<close> whose backing array goes
  on with the bytes \<open>sp\<close>: it panics unless \<open>0 \<le> lo \<le> hi \<le> cap s\<close>, and it
  reads the backing array, beyond \<open>len s\<close> too.
\<close>

definition sliceBytes :: "string \<Rightarrow> string \<Rightarrow> int \<Rightarrow> int \<Rightarrow> failure + string" where
  "sliceBytes s sp lo hi =
     (if 0 \<le> lo \<and> lo \<le> hi \<and> hi \<le> int (length s + length sp)
      then Inr (take (nat hi - nat lo) (drop (nat lo) (s @ sp)))
      else Inl Panic)"

subsection \<open>The two collectors\<close>

text \<open>
  \<^verbatim>\<open>collectLocalBindReplacement\<close> and \<^verbatim>\<open>collectVarReplacement\<close> return a pointer
  and an error: \<open>Inr (Some rep)\<close> is a replacement with a nil error, \<open>Inr None\<close> is
  the error ``no match at loc'', \<open>Inl Panic\<close> is the panic of the slice expression.
\<close>

definition collectLocalBindReplacement ::
    "Context \<Rightarrow> LocalBind \<Rightarrow> string \<Rightarrow> string \<Rightarrow> failure + Replacement option" where
  "collectLocalBindReplacement ctx node oldName newName =
     (let loc = LocRange node in
      if IsSet loc then
        (let beginLine = wrapInt (Line (Begin loc) - 1);
             beginCol = wrapInt (Column (Begin loc) - 1);
             endLine = wrapInt (Line (End loc) - 1);
             endCol = wrapInt (wrapInt (Column (Begin loc) + int (length oldName)) - 1);
             beginOffset = lineColToOffset (lineOffsets ctx) beginLine beginCol;
             endOffset = lineColToOffset (lineOffsets ctx) endLine endCol
         in case sliceBytes (source ctx) (spare ctx) beginOffset endOffset of
              Inl f \<Rightarrow> Inl f
            | Inr span \<Rightarrow>
                if span = oldName
                then Inr (Some \<lparr>beginOffset = beginOffset, endOffset = endOffset,
                                newValue = newName\<rparr>)
                else Inr None)
      else Inr None)"

definition collectVarReplacement ::
    "Context \<Rightarrow> Node \<Rightarrow> string \<Rightarrow> string \<Rightarrow> failure + Replacement option" where
  "collectVarReplacement ctx node oldName newName =
     (let loc = Loc node in
      if IsSet loc then
        (let beginLine = wrapInt (Line (Begin loc) - 1);
             beginCol = wrapInt (Column (Begin loc) - 1);
             endLine = wrapInt (Line (End loc) - 1);
             endCol = wrapInt (Column (End loc) - 1);
             beginOffset = lineColToOffset (lineOffsets ctx) beginLine beginCol;
             endOffset = lineColToOffset (lineOffsets ctx) endLine endCol
         in case sliceBytes (source ctx) (spare ctx) beginOffset endOffset of
              Inl f \<Rightarrow> Inl f
            | Inr span \<Rightarrow>
                if span = oldName
                then Inr (Some \<lparr>beginOffset = beginOffset, endOffset = endOffset,
                                newValue = newName\<rparr>)
                else Inr None)
      else Inr None)"

text \<open>The loop over \<^verbatim>\<open>n.Binds\<close> of \<^verbatim>\<open>collectLocalBindReplacements\<close>.\<close>

fun collectBinds :: "Context \<Rightarrow> LocalBind list \<Rightarrow> failure + Context" where
  "collectBinds ctx [] = Inr ctx"
| "collectBinds ctx (b # bs) =
     (case collectLocalBindReplacement ctx b (Variable b) (prefix ctx @ ''_'' @ Variable b) of
        Inl f \<Rightarrow> Inl f
      | Inr None \<Rightarrow> collectBinds ctx bs
      | Inr (Some rep) \<Rightarrow>
          collectBinds
            (ctx\<lparr>replacements := replacements ctx @ [rep],
                 localBinds := insert (Variable b) (localBinds ctx)\<rparr>) bs)"

fun collectLocalBindReplacements :: "Context \<Rightarrow> Node \<Rightarrow> failure + Context"
  and collectLocalBindChildren :: "Context \<Rightarrow> Node list \<Rightarrow> failure + Context" where
  "collectLocalBindReplacements ctx (Local l binds cs) =
     (case collectBinds ctx binds of
        Inl f \<Rightarrow> Inl f
      | Inr ctx' \<Rightarrow> collectLocalBindChildren ctx' cs)"
| "collectLocalBindReplacements ctx (Var l v cs) = collectLocalBindChildren ctx cs"
| "collectLocalBindReplacements ctx (Other l cs) = collectLocalBindChildren ctx cs"
| "collectLocalBindChildren ctx [] = Inr ctx"
| "collectLocalBindChildren ctx (child # rest) =
     (case collectLocalBindReplacements ctx child of
        Inl f \<Rightarrow> Inl f
      | Inr ctx' \<Rightarrow> collectLocalBindChildren ctx' rest)"

text \<open>The \<^verbatim>\<open>*ast.Var\<close> case of \<^verbatim>\<open>collectVarReplacements\<close>.\<close>

definition collectVar :: "Context \<Rightarrow> Node \<Rightarrow> string \<Rightarrow> failure + Context" where
  "collectVar ctx n v =
     (if v \<in> localBinds ctx then
        (case collectVarReplacement ctx n v (prefix ctx @ ''_'' @ v) of
           Inl f \<Rightarrow> Inl f
         | Inr None \<Rightarrow> Inr ctx
         | Inr (Some rep) \<Rightarrow> Inr (ctx\<lparr>replacements := replacements ctx @ [rep]\<rparr>))
      else Inr ctx)"

fun collectVarReplacements :: "Context \<Rightarrow> Node \<Rightarrow> failure + Context"
  and collectVarChildren :: "Context \<Rightarrow> Node list \<Rightarrow> failure + Context" where
  "collectVarReplacements ctx (Var l v cs) =
     (case collectVar ctx (Var l v cs) v of
        Inl f \<Rightarrow> Inl f
      | Inr ctx' \<Rightarrow> collectVarChildren ctx' cs)"
| "collectVarReplacements ctx (Local l binds cs) = collectVarChildren ctx cs"
| "collectVarReplacements ctx (Other l cs) = collectVarChildren ctx cs"
| "collectVarChildren ctx [] = Inr ctx"
| "collectVarChildren ctx (child # rest) =
     (case collectVarReplacements ctx child of
        Inl f \<Rightarrow> Inl f
      | Inr ctx' \<Rightarrow> collectVarChildren ctx' rest)"

subsection \<open>The replacement applier\<close>

text \<open>
  \<^verbatim>\<open>sort.Slice\<close> with \<^verbatim>\<open>reps[i].beginOffset > reps[j].beginOffset\<close>: the
  replacements in descending order of their begin offsets. Replacements with the same
  begin offset keep their order, as the insertion sort that \<^verbatim>\<open>sort.Slice\<close> runs on a
  slice of at most 12 elements leaves them.
\<close>

definition sortSlice :: "Replacement list \<Rightarrow> Replacement list" where
  "sortSlice reps = sort_key (\<lambda>r. - beginOffset r) reps"

text \<open>
  One round of the loop:
  \<^verbatim>\<open>out = append(out[:rep.beginOffset], append([]byte(rep.newValue), out[rep.endOffset:]...)...)\<close>.
  \<^verbatim>\<open>out[e:]\<close> panics unless \<open>0 \<le> e \<le> len out\<close>; nothing compares \<open>b\<close> with
  \<open>e\<close>. The inner \<^verbatim>\<open>append\<close> copies the tail into a fresh array before the outer
  one writes, so the result is the concatenation of the three parts. Go checks
  \<^verbatim>\<open>out[:b]\<close> against the capacity of \<open>out\<close>, which after an \<^verbatim>\<open>append\<close> is the
  choice of the allocator; the model checks \<open>b\<close> against the length. The two agree on
  every edit with \<open>b \<le> e\<close>, since \<open>e\<close> is checked against the length in both, and
  the collectors record no other edit.
\<close>

definition splice :: "string \<Rightarrow> Replacement \<Rightarrow> failure + string" where
  "splice out rep =
     (if 0 \<le> beginOffset rep \<and> beginOffset rep \<le> int (length out)
         \<and> 0 \<le> endOffset rep \<and> endOffset rep \<le> int (length out)
      then Inr (take (nat (beginOffset rep)) out @ newValue rep @ drop (nat (endOffset rep)) out)
      else Inl Panic)"

fun applyLoop :: "string \<Rightarrow> Replacement list \<Rightarrow> failure + string" where
  "applyLoop out [] = Inr out"
| "applyLoop out (rep # reps) =
     (case splice out rep of Inl f \<Rightarrow> Inl f | Inr out' \<Rightarrow> applyLoop out' reps)"

definition applyReplacements :: "Context \<Rightarrow> failure + string" where
  "applyReplacements ctx = applyLoop (source ctx) (sortSlice (replacements ctx))"

subsection \<open>The program\<close>

text \<open>
  \<^verbatim>\<open>main\<close>, as a function of what it reads from its environment: the result of
  \<^verbatim>\<open>os.ReadFile\<close> (the bytes of the file and the spare capacity of the slice that
  holds them), the result of \<^verbatim>\<open>vm.ImportAST\<close>, the clock as
  \<^verbatim>\<open>time.Now().Format(time.RFC3339)\<close> prints it, and whether \<^verbatim>\<open>os.MkdirAll\<close> and
  \<^verbatim>\<open>os.WriteFile\<close> succeed. \<open>None\<close> is an error of the read or of the import. The
  result is the bytes written to \<^verbatim>\<open>output/main.libsonnet\<close>. \<open>engine\<close> is the body
  of \<^verbatim>\<open>main\<close> for any file name; \<^verbatim>\<open>main\<close> runs it on its constant.
\<close>

definition header :: "string \<Rightarrow> string \<Rightarrow> string" where
  "header now src =
     ''// Auto-generated by jsonnet-bundler at '' @ now @ '' for '' @ src @ [CHR 0x0A]"

definition engine ::
    "string \<Rightarrow> (string \<times> string) option \<Rightarrow> Node option \<Rightarrow> string \<Rightarrow> bool \<Rightarrow> bool
       \<Rightarrow> failure + string" where
  "engine src readFile importAST now mkdirOk writeOk =
     (case readFile of
        None \<Rightarrow> Inl Fatal
      | Some (code, codeSpare) \<Rightarrow>
          (let ctx = \<lparr>prefix = hash src, replacements = [], source = code, spare = codeSpare,
                      lineOffsets = buildLineOffsets code, localBinds = {}\<rparr>
           in case importAST of
                None \<Rightarrow> Inl Fatal
              | Some node \<Rightarrow>
                  (case collectLocalBindReplacements ctx node of
                     Inl f \<Rightarrow> Inl f
                   | Inr ctx1 \<Rightarrow>
                       (case collectVarReplacements ctx1 node of
                          Inl f \<Rightarrow> Inl f
                        | Inr ctx2 \<Rightarrow>
                            (case applyReplacements ctx2 of
                               Inl f \<Rightarrow> Inl f
                             | Inr newSource \<Rightarrow>
                                 if mkdirOk then
                                   (if writeOk then Inr (header now src @ newSource)
                                    else Inl Fatal)
                                 else Inl Fatal)))))"

definition main ::
    "(string \<times> string) option \<Rightarrow> Node option \<Rightarrow> string \<Rightarrow> bool \<Rightarrow> bool \<Rightarrow> failure + string" where
  "main = engine ''input/konn/main.libsonnet''"

subsection \<open>Notions of the statements: identifiers and hexadecimal numerals\<close>

text \<open>
  An identifier of Jsonnet is a letter or an underscore followed by letters, digits and
  underscores. \<open>hexValue\<close> reads a lower-case hexadecimal numeral.
\<close>

definition isDigit :: "char \<Rightarrow> bool" where
  "isDigit c = ((48::nat) \<le> of_char c \<and> of_char c \<le> (57::nat))"

definition isLetter :: "char \<Rightarrow> bool" where
  "isLetter c = (((65::nat) \<le> of_char c \<and> of_char c \<le> (90::nat))
                 \<or> ((97::nat) \<le> of_char c \<and> of_char c \<le> (122::nat)))"

definition isIdentifier :: "string \<Rightarrow> bool" where
  "isIdentifier s = (s \<noteq> [] \<and> (hd s = CHR ''_'' \<or> isLetter (hd s))
                      \<and> list_all (\<lambda>c. c = CHR ''_'' \<or> isLetter c \<or> isDigit c) s)"

definition isHexLower :: "char \<Rightarrow> bool" where
  "isHexLower c = (c \<in> set ''0123456789abcdef'')"

definition digitVal :: "char \<Rightarrow> int" where
  "digitVal c = (if isDigit c then of_char c - 48 else of_char c - 87)"

definition hexValue :: "string \<Rightarrow> int" where
  "hexValue s = foldl (\<lambda>a c. 16 * a + digitVal c) 0 s"

subsection \<open>Notions of the statements: the lines of a buffer\<close>

text \<open>
  \<open>splitLines\<close> is \<^verbatim>\<open>strings.Split(s, "\n")\<close>, as the first program of
  \<^verbatim>\<open>src/main.go\<close> uses it to find a line: the start of line \<open>i\<close> is the sum, over the
  lines before it, of their lengths plus one for each newline.
\<close>

fun splitLines :: "string \<Rightarrow> string list" where
  "splitLines [] = [[]]"
| "splitLines (c # cs) =
     (if c = CHR 0x0A then [] # splitLines cs
      else (case splitLines cs of [] \<Rightarrow> [[c]] | l # ls \<Rightarrow> (c # l) # ls))"

definition lineStart :: "string \<Rightarrow> nat \<Rightarrow> int" where
  "lineStart src i = sum_list (map (\<lambda>l. int (length l) + 1) (take i (splitLines src)))"

fun lineStartsFrom :: "int \<Rightarrow> string list \<Rightarrow> int list" where
  "lineStartsFrom off [] = []"
| "lineStartsFrom off (l # ls) = off # lineStartsFrom (off + int (length l) + 1) ls"

subsection \<open>Notions of the statements: edits and the buffer they describe\<close>

text \<open>
  An edit is valid in a buffer when \<open>0 \<le> begin \<le> end \<le> len\<close>. Two edits do not
  overlap when one of them ends where the other begins, or before.
  \<open>replaceRanges\<close> is the buffer the edits describe: the edits are read in ascending
  order of their begin offsets, and the result is the source up to the first range, the
  new text of the first edit, the source between the first and the second range, and so
  on to the end of the source. \<open>ascChain\<close> says that a list of edits lies in this
  order between a position and the end of the buffer.
\<close>

definition validEdit :: "string \<Rightarrow> Replacement \<Rightarrow> bool" where
  "validEdit src r =
     (0 \<le> beginOffset r \<and> beginOffset r \<le> endOffset r \<and> endOffset r \<le> int (length src))"

definition validEdits :: "string \<Rightarrow> Replacement list \<Rightarrow> bool" where
  "validEdits src reps = list_all (validEdit src) reps"

definition disjointEdits :: "Replacement \<Rightarrow> Replacement \<Rightarrow> bool" where
  "disjointEdits r1 r2 =
     (endOffset r1 \<le> beginOffset r2 \<or> endOffset r2 \<le> beginOffset r1)"

fun nonOverlapping :: "Replacement list \<Rightarrow> bool" where
  "nonOverlapping [] = True"
| "nonOverlapping (r # rs) = (list_all (disjointEdits r) rs \<and> nonOverlapping rs)"

fun rebuild :: "string \<Rightarrow> int \<Rightarrow> Replacement list \<Rightarrow> string" where
  "rebuild src pos [] = drop (nat pos) src"
| "rebuild src pos (r # rs) =
     take (nat (beginOffset r) - nat pos) (drop (nat pos) src) @ newValue r
       @ rebuild src (endOffset r) rs"

definition replaceRanges :: "string \<Rightarrow> Replacement list \<Rightarrow> string" where
  "replaceRanges src reps = rebuild src 0 (sort_key beginOffset reps)"

definition sortedDescending :: "Replacement list \<Rightarrow> bool" where
  "sortedDescending reps = sorted_wrt (\<lambda>x y. beginOffset y \<le> beginOffset x) reps"

fun ascChain :: "int \<Rightarrow> Replacement list \<Rightarrow> int \<Rightarrow> bool" where
  "ascChain pos [] n = (pos \<le> n)"
| "ascChain pos (r # rs) n =
     (pos \<le> beginOffset r \<and> beginOffset r \<le> endOffset r \<and> ascChain (endOffset r) rs n)"

subsection \<open>A file whose local bind spans several lines\<close>

text \<open>
  The file
  \<^verbatim>\<open>local x = {\<close>, \<^verbatim>\<open>  a: 1\<close>, \<^verbatim>\<open>};\<close>, \<^verbatim>\<open>x + 12345\<close> (four lines, 31 bytes),
  its bind of \<open>x\<close>, whose range begins at the name (line 1, column 7) and ends with the
  bound object (line 3, column 2), the context that \<^verbatim>\<open>main\<close> builds for the file
  (with a short prefix), and its syntax tree.
\<close>

definition multiLineSource :: string where
  "multiLineSource =
     ''local x = {'' @ [CHR 0x0A] @ ''  a: 1'' @ [CHR 0x0A] @ ''};'' @ [CHR 0x0A] @ ''x + 12345''"

definition multiLineBind :: LocalBind where
  "multiLineBind =
     \<lparr>Variable = ''x'',
      LocRange = \<lparr>Begin = \<lparr>Line = 1, Column = 7\<rparr>, End = \<lparr>Line = 3, Column = 2\<rparr>\<rparr>\<rparr>"

definition multiLineContext :: Context where
  "multiLineContext =
     \<lparr>prefix = ''_p'', replacements = [], source = multiLineSource, spare = [],
      lineOffsets = buildLineOffsets multiLineSource, localBinds = {}\<rparr>"

definition multiLineTree :: Node where
  "multiLineTree =
     Local \<lparr>Begin = \<lparr>Line = 1, Column = 1\<rparr>, End = \<lparr>Line = 4, Column = 10\<rparr>\<rparr>
       [multiLineBind]
       [Other \<lparr>Begin = \<lparr>Line = 1, Column = 11\<rparr>, End = \<lparr>Line = 3, Column = 2\<rparr>\<rparr> [],
        Other \<lparr>Begin = \<lparr>Line = 4, Column = 1\<rparr>, End = \<lparr>Line = 4, Column = 10\<rparr>\<rparr>
          [Var \<lparr>Begin = \<lparr>Line = 4, Column = 1\<rparr>, End = \<lparr>Line = 4, Column = 2\<rparr>\<rparr> ''x'' [],
           Other \<lparr>Begin = \<lparr>Line = 4, Column = 5\<rparr>, End = \<lparr>Line = 4, Column = 10\<rparr>\<rparr> []]]"

section \<open>The span resolver\<close>

text \<open>
  C6, as it is stated, fails when the sum leaves the range of \<^verbatim>\<open>int\<close>: with the
  table whose only entry is the largest \<^verbatim>\<open>int\<close>, line 0 and column 1, the line is
  within the bounds of the table and \<open>table[line] + col\<close> is \<open>2^63\<close>, but the addition
  of Go wraps and \<^verbatim>\<open>lineColToOffset\<close> returns \<open>-2^63\<close>.
\<close>

theorem lineColToOffset_wraps_counterexample:
  "(0::int) \<le> 0 \<and> (0::int) \<le> 1 \<and> nat 0 < length [9223372036854775807::int]
   \<and> [9223372036854775807::int] ! nat 0 + 1 = 9223372036854775808
   \<and> lineColToOffset [9223372036854775807] 0 1 = - 9223372036854775808
   \<and> lineColToOffset [9223372036854775807] 0 1 \<noteq> [9223372036854775807::int] ! nat 0 + 1"
  by (simp add: lineColToOffset_def wrapInt_def)

text \<open>
  C6, amended. For every table and every non-negative line and column,
  \<^verbatim>\<open>lineColToOffset\<close> returns 0 when the line is not an index of the table; when it
  is, it returns the sum \<open>table[line] + col\<close> as the 64-bit \<^verbatim>\<open>int\<close> holds it, which is
  the sum itself whenever the entry is an \<^verbatim>\<open>int\<close> and the sum is at most the largest
  \<^verbatim>\<open>int\<close>, \<open>2^63 - 1\<close>.
\<close>

theorem lineColToOffset_contract:
  assumes "0 \<le> line" and "0 \<le> col"
  shows "lineColToOffset table line col =
           (if nat line < length table then wrapInt (table ! nat line + col) else 0)
         \<and> (nat line < length table \<and> - 9223372036854775808 \<le> table ! nat line
              \<and> table ! nat line + col \<le> 9223372036854775807
            \<longrightarrow> lineColToOffset table line col = table ! nat line + col)"
proof -
  have w: "wrapInt x = x" if "- 9223372036854775808 \<le> x" "x \<le> 9223372036854775807" for x
    using that by (simp add: wrapInt_def)
  have "lineColToOffset table line col =
          (if nat line < length table then wrapInt (table ! nat line + col) else 0)"
    using assms by (auto simp: lineColToOffset_def)
  moreover have "lineColToOffset table line col = table ! nat line + col"
    if "nat line < length table" "- 9223372036854775808 \<le> table ! nat line"
       "table ! nat line + col \<le> 9223372036854775807"
  proof -
    have "- 9223372036854775808 \<le> table ! nat line + col" using that(2) assms(2) by simp
    moreover have "\<not> int (length table) \<le> line" using that(1) assms(1) by linarith
    ultimately show ?thesis using that assms by (simp add: lineColToOffset_def w)
  qed
  ultimately show ?thesis by blast
qed

theorem lineColToOffset_contract_witness:
  "(0::int) \<le> 1 \<and> (0::int) \<le> 4 \<and> nat 1 < length [0::int, 12, 20]
     \<and> - 9223372036854775808 \<le> [0::int, 12, 20] ! nat 1
     \<and> [0::int, 12, 20] ! nat 1 + 4 \<le> 9223372036854775807
     \<and> lineColToOffset [0, 12, 20] 1 4 = 16
     \<and> lineColToOffset [0, 12, 20] 3 4 = 0
     \<and> lineColToOffset [9223372036854775800, 9223372036854775807] 1 4 = - 9223372036854775805"
  using lineColToOffset_contract [of 1 4 "[0, 12, 20]"]
        lineColToOffset_contract [of 3 4 "[0, 12, 20]"]
        lineColToOffset_contract [of 1 4 "[9223372036854775800, 9223372036854775807]"]
  by (simp add: wrapInt_def)

section \<open>The name generator\<close>

lemma lt16: "0 \<le> d \<Longrightarrow> (d::int) < 16 \<Longrightarrow> d \<in> {0,1,2,3,4,5,6,7,8,9,10,11,12,13,14,15}"
  by (simp only: insert_iff empty_iff) presburger

lemma hexDigit_cases:
  "hexDigit 0 = CHR ''0''" "hexDigit 1 = CHR ''1''" "hexDigit 2 = CHR ''2''" "hexDigit 3 = CHR ''3''"
  "hexDigit 4 = CHR ''4''" "hexDigit 5 = CHR ''5''" "hexDigit 6 = CHR ''6''" "hexDigit 7 = CHR ''7''"
  "hexDigit 8 = CHR ''8''" "hexDigit 9 = CHR ''9''" "hexDigit 10 = CHR ''a''" "hexDigit 11 = CHR ''b''"
  "hexDigit 12 = CHR ''c''" "hexDigit 13 = CHR ''d''" "hexDigit 14 = CHR ''e''" "hexDigit 15 = CHR ''f''"
  by (simp_all add: hexDigit_def)

lemma hexDigit_hex: "0 \<le> d \<Longrightarrow> d < 16 \<Longrightarrow> isHexLower (hexDigit d)"
  by (drule (1) lt16) (auto simp: hexDigit_cases isHexLower_def)

lemma hexDigit_val: "0 \<le> d \<Longrightarrow> d < 16 \<Longrightarrow> digitVal (hexDigit d) = d"
  by (drule (1) lt16) (auto simp: hexDigit_cases digitVal_def isDigit_def)

lemma isHexLower_ident: "isHexLower c \<Longrightarrow> isLetter c \<or> isDigit c"
  unfolding isHexLower_def by (auto simp: isLetter_def isDigit_def)

lemma digitVal_zero: "digitVal (CHR ''0'') = 0"
  by (simp add: digitVal_def isDigit_def)

lemma foldl_pad: "foldl (\<lambda>a c. 16 * a + digitVal c) 0 (replicate m (CHR ''0'')) = 0"
proof (induction m)
  case 0 show ?case by simp
next
  case (Suc m)
  have "replicate (Suc m) (CHR ''0'') = replicate m (CHR ''0'') @ [CHR ''0'']"
    by (simp add: replicate_append_same)
  then show ?case using Suc by (simp add: digitVal_zero del: replicate.simps)
qed

lemma hexValue_pad: "hexValue (replicate m (CHR ''0'') @ s) = hexValue s"
  by (simp add: hexValue_def foldl_pad)

lemma hexDigits_length: "0 \<le> n \<Longrightarrow> n < 16 ^ Suc k \<Longrightarrow> length (hexDigits n) \<le> Suc k"
proof (induction k arbitrary: n)
  case 0
  then show ?case by (subst hexDigits.simps) simp
next
  case (Suc k)
  show ?case
  proof (cases "n < 16")
    case True then show ?thesis by (subst hexDigits.simps) simp
  next
    case False
    from Suc.prems have "0 \<le> n div 16" "n div 16 < 16 ^ Suc k" by auto
    then have "length (hexDigits (n div 16)) \<le> Suc k" by (rule Suc.IH)
    with False show ?thesis by (subst hexDigits.simps) simp
  qed
qed

lemma hexDigits_hex: "0 \<le> n \<Longrightarrow> list_all isHexLower (hexDigits n)"
proof (induction n rule: hexDigits.induct)
  case (1 n)
  show ?case
  proof (cases "n < 16")
    case True with 1 show ?thesis by (subst hexDigits.simps) (simp add: hexDigit_hex)
  next
    case False
    with 1 have "list_all isHexLower (hexDigits (n div 16))" by simp
    with False show ?thesis by (subst hexDigits.simps) (simp add: hexDigit_hex)
  qed
qed

lemma hexValue_snoc: "hexValue (s @ [c]) = 16 * hexValue s + digitVal c"
  by (simp add: hexValue_def)

lemma hexDigits_value: "0 \<le> n \<Longrightarrow> hexValue (hexDigits n) = n"
proof (induction n rule: hexDigits.induct)
  case (1 n)
  show ?case
  proof (cases "n < 16")
    case True with 1 show ?thesis
      by (subst hexDigits.simps) (simp add: hexValue_def hexDigit_val)
  next
    case False
    with 1 have "hexValue (hexDigits (n div 16)) = n div 16" by simp
    with False show ?thesis
      by (subst hexDigits.simps) (simp add: hexValue_snoc hexDigit_val)
  qed
qed

lemma hexDigits_nonempty: "hexDigits n \<noteq> []"
  by (subst hexDigits.simps) simp

lemma sprintf_08x_length: "length (sprintf_08x v) = 8"
proof -
  have "uint v < 16 ^ Suc 7" using uint_lt2p [of v] by simp
  then have "length (hexDigits (uint v)) \<le> Suc 7" by (intro hexDigits_length) simp_all
  then show ?thesis by (simp add: sprintf_08x_def Let_def)
qed

lemma sprintf_08x_hex: "list_all isHexLower (sprintf_08x v)"
proof -
  have "isHexLower (CHR ''0'')" by (simp add: isHexLower_def)
  then have "list_all isHexLower (replicate m (CHR ''0''))" for m
    by (simp add: list_all_iff)
  moreover have "list_all isHexLower (hexDigits (uint v))" by (rule hexDigits_hex) simp
  ultimately show ?thesis by (simp add: sprintf_08x_def Let_def)
qed

lemma sprintf_08x_value: "hexValue (sprintf_08x v) = uint v"
  by (simp add: sprintf_08x_def Let_def hexValue_pad hexDigits_value)

text \<open>The test vectors of FNV-1a, 32 bits, for the model of \<^verbatim>\<open>hash/fnv\<close>.\<close>

lemma fnv32a_test_vectors:
  "fnv32a_Sum32 [] = 0x811c9dc5"
  "fnv32a_Sum32 ''a'' = 0xe40c292c"
  "fnv32a_Sum32 ''foobar'' = 0xbf9cf968"
  by (simp_all add: fnv32a_Sum32_def fnv32a_Write_def)

text \<open>
  C8. \<^verbatim>\<open>hash\<close> is a function of the file name alone (it reads no clock and no
  state), and for every file name its result is the 32-bit FNV-1a hash of the name
  printed as exactly 8 lower-case hexadecimal digits after an underscore: 9 characters,
  the first of them not a digit, which read back as the hash, and which form an
  identifier of Jsonnet.
\<close>

theorem hash_shape:
  "length (hash filename) = 9
   \<and> hd (hash filename) = CHR ''_''
   \<and> \<not> isDigit (hd (hash filename))
   \<and> list_all isHexLower (tl (hash filename))
   \<and> hexValue (tl (hash filename)) = uint (fnv32a_Sum32 filename)
   \<and> isIdentifier (hash filename)"
proof -
  let ?d = "sprintf_08x (fnv32a_Sum32 filename)"
  have h: "hash filename = CHR ''_'' # ?d" by (simp add: hash_def)
  have "list_all (\<lambda>c. c = CHR ''_'' \<or> isLetter c \<or> isDigit c) ?d"
    using sprintf_08x_hex [of "fnv32a_Sum32 filename"] isHexLower_ident
    by (auto simp: list_all_iff)
  then have "isIdentifier (hash filename)" by (simp add: h isIdentifier_def)
  moreover have "\<not> isDigit (CHR ''_'')" by (simp add: isDigit_def)
  ultimately show ?thesis
    by (simp add: h sprintf_08x_length sprintf_08x_hex sprintf_08x_value)
qed

theorem hash_shape_witness:
  "hash ''input/konn/main.libsonnet'' = ''_11ca33b0''
   \<and> length (hash ''input/konn/main.libsonnet'') = 9
   \<and> isIdentifier (hash ''input/konn/main.libsonnet'')"
proof -
  have "hash ''input/konn/main.libsonnet'' = ''_11ca33b0''" by code_simp
  with hash_shape [of "''input/konn/main.libsonnet''"] show ?thesis by simp
qed

section \<open>The line offset index\<close>

lemma buildLoop_acc: "buildLoop i bs offs = offs @ buildLoop i bs []"
proof (induction bs arbitrary: i offs)
  case Nil show ?case by simp
next
  case (Cons b bs)
  show ?case
    using Cons.IH [of "i + 1" "offs @ [i + 1]"] Cons.IH [of "i + 1" "[i + 1]"] Cons.IH [of "i + 1" offs]
    by simp
qed

lemma buildLoop_shift: "buildLoop (i + k) bs [] = map (\<lambda>off. off + k) (buildLoop i bs [])"
proof (induction bs arbitrary: i)
  case Nil show ?case by simp
next
  case (Cons b bs)
  have a: "buildLoop (i + k + 1) bs [] = map (\<lambda>off. off + k) (buildLoop (i + 1) bs [])"
    using Cons.IH [of "i + 1"] by (simp add: add.commute add.left_commute)
  show ?case
    using buildLoop_acc [of "i + k + 1" bs "[i + k + 1]"] buildLoop_acc [of "i + 1" bs "[i + 1]"] a
    by simp
qed

lemma splitLines_nonempty: "splitLines s \<noteq> []"
  by (induction s) (auto split: list.splits)

lemma lineStartsFrom_shift:
  "lineStartsFrom (off + k) ls = map (\<lambda>x. x + k) (lineStartsFrom off ls)"
proof (induction ls arbitrary: off)
  case Nil show ?case by simp
next
  case (Cons l ls)
  have e: "off + k + int (length l) + 1 = (off + int (length l) + 1) + k" by simp
  show ?case unfolding lineStartsFrom.simps e Cons.IH by simp
qed

lemma lineStartsFrom_length: "length (lineStartsFrom off ls) = length ls"
  by (induction ls arbitrary: off) simp_all

lemma lineStartsFrom_nth:
  "i < length ls \<Longrightarrow>
     lineStartsFrom off ls ! i = off + sum_list (map (\<lambda>l. int (length l) + 1) (take i ls))"
proof (induction ls arbitrary: off i)
  case Nil then show ?case by simp
next
  case (Cons l ls)
  then show ?case by (cases i) simp_all
qed

lemma lineStartsFrom_ge: "x \<in> set (lineStartsFrom off ls) \<Longrightarrow> off \<le> x"
proof (induction ls arbitrary: off)
  case Nil then show ?case by simp
next
  case (Cons l ls)
  then show ?case by fastforce
qed

lemma lineStartsFrom_increasing: "sorted_wrt (<) (lineStartsFrom off ls)"
proof (induction ls arbitrary: off)
  case Nil show ?case by simp
next
  case (Cons l ls)
  have "off < x" if "x \<in> set (lineStartsFrom (off + int (length l) + 1) ls)" for x
    using lineStartsFrom_ge [OF that] by simp
  with Cons.IH show ?case by simp
qed

lemma buildLoop_Cons:
  "buildLoop 0 (c # cs) [] =
     (if c = CHR 0x0A then [1] else []) @ map (\<lambda>off. off + 1) (buildLoop 0 cs [])"
  using buildLoop_acc [of 1 cs "[1]"] buildLoop_shift [of 0 1 cs] by simp

lemma buildLineOffsets_starts: "buildLineOffsets s = lineStartsFrom 0 (splitLines s)"
proof -
  have "0 # buildLoop 0 s [] = lineStartsFrom 0 (splitLines s)"
  proof (induction s)
    case Nil show ?case by simp
  next
    case (Cons c cs)
    show ?case
    proof (cases "c = CHR 0x0A")
      case True
      have "lineStartsFrom 1 (splitLines cs) = map (\<lambda>x. x + 1) (lineStartsFrom 0 (splitLines cs))"
        using lineStartsFrom_shift [of 0 1] by simp
      with True Cons.IH [symmetric] show ?thesis
        by (simp add: buildLoop_Cons del: buildLoop.simps)
    next
      case False
      obtain l ls where sp: "splitLines cs = l # ls"
        using splitLines_nonempty [of cs] by (cases "splitLines cs") auto
      from Cons.IH sp have "buildLoop 0 cs [] = lineStartsFrom (int (length l) + 1) ls" by simp
      moreover have "lineStartsFrom (int (length l) + 1 + 1) ls
                     = map (\<lambda>x. x + 1) (lineStartsFrom (int (length l) + 1) ls)"
        by (rule lineStartsFrom_shift)
      ultimately show ?thesis using False sp
        by (simp add: buildLoop_Cons add.commute del: buildLoop.simps)
    qed
  qed
  then show ?thesis using buildLoop_acc [of 0 s "[0]"] by (simp add: buildLineOffsets_def)
qed

lemma splitLines_length: "length (splitLines s) = count_list s (CHR 0x0A) + 1"
proof (induction s)
  case Nil show ?case by simp
next
  case (Cons c cs)
  then show ?case using splitLines_nonempty [of cs] by (auto split: list.splits)
qed

text \<open>
  C7. For every buffer the table of \<^verbatim>\<open>buildLineOffsets\<close> has one entry more than the
  buffer has newline characters, its entry 0 is 0, it is strictly increasing, and its
  entry \<open>i\<close> is the byte offset at which line \<open>i\<close> starts.
\<close>

theorem buildLineOffsets_table:
  "length (buildLineOffsets src) = count_list src (CHR 0x0A) + 1
   \<and> buildLineOffsets src ! 0 = 0
   \<and> sorted_wrt (<) (buildLineOffsets src)
   \<and> (\<forall>i < length (buildLineOffsets src). buildLineOffsets src ! i = lineStart src i)"
proof -
  have "buildLineOffsets src ! 0 = 0"
    using splitLines_nonempty [of src]
    by (cases "splitLines src") (simp_all add: buildLineOffsets_starts)
  then show ?thesis
    by (simp add: buildLineOffsets_starts lineStartsFrom_length splitLines_length
        lineStartsFrom_increasing lineStartsFrom_nth lineStart_def)
qed

theorem buildLineOffsets_table_witness:
  "buildLineOffsets ''local x = 1;\<newline>x\<newline>'' = [0, 13, 15]
   \<and> count_list ''local x = 1;\<newline>x\<newline>'' (CHR 0x0A) = 2
   \<and> sorted_wrt (<) (buildLineOffsets ''local x = 1;\<newline>x\<newline>'')
   \<and> lineStart ''local x = 1;\<newline>x\<newline>'' 2 = 15"
proof -
  have a: "buildLineOffsets ''local x = 1;\<newline>x\<newline>'' = [0, 13, 15]"
    by (simp add: buildLineOffsets_def)
  have b: "count_list ''local x = 1;\<newline>x\<newline>'' (CHR 0x0A) = 2" by simp
  note t = buildLineOffsets_table [of "''local x = 1;\<newline>x\<newline>''"]
  from t have q: "i < length (buildLineOffsets ''local x = 1;\<newline>x\<newline>'') \<Longrightarrow>
      buildLineOffsets ''local x = 1;\<newline>x\<newline>'' ! i = lineStart ''local x = 1;\<newline>x\<newline>'' i" for i
    by blast
  have "lineStart ''local x = 1;\<newline>x\<newline>'' 2 = 15"
    using q [of 2] by (simp add: a)
  with t a b show ?thesis by simp
qed

section \<open>The replacement applier\<close>

lemma applyLoop_append:
  "applyLoop out (xs @ ys) =
     (case applyLoop out xs of Inl f \<Rightarrow> Inl f | Inr out' \<Rightarrow> applyLoop out' ys)"
  by (induction xs arbitrary: out) (simp_all split: sum.splits)

lemma ascChain_le: "ascChain pos rs n \<Longrightarrow> pos \<le> n"
proof (induction rs arbitrary: pos)
  case Nil then show ?case by simp
next
  case (Cons r rs)
  from Cons.prems have "endOffset r \<le> n" by (intro Cons.IH) simp
  with Cons.prems show ?case by simp
qed

lemma applyLoop_rev_ascending:
  "0 \<le> pos \<Longrightarrow> ascChain pos asc (int (length src)) \<Longrightarrow>
     applyLoop src (rev asc) = Inr (take (nat pos) src @ rebuild src pos asc)"
proof (induction asc arbitrary: pos)
  case Nil
  then show ?case by simp
next
  case (Cons r rs)
  let ?b = "beginOffset r" and ?e = "endOffset r"
  from Cons.prems have le: "pos \<le> ?b" "?b \<le> ?e" and ch: "ascChain ?e rs (int (length src))"
    by simp_all
  from ch have en: "?e \<le> int (length src)" by (rule ascChain_le)
  from le Cons.prems(1) have e0: "0 \<le> ?e" by simp
  have ih: "applyLoop src (rev rs) = Inr (take (nat ?e) src @ rebuild src ?e rs)"
    using Cons.IH [OF e0 ch] .
  let ?out = "take (nat ?e) src @ rebuild src ?e rs"
  have len: "length (take (nat ?e) src) = nat ?e" using en e0 by simp
  have sp: "splice ?out r = Inr (take (nat ?b) src @ newValue r @ rebuild src ?e rs)"
  proof -
    have "take (nat ?b) ?out = take (nat ?b) src" using le en e0 Cons.prems(1) by simp
    moreover have "drop (nat ?e) ?out = rebuild src ?e rs" using len by simp
    moreover have "?b \<le> int (length ?out)" "?e \<le> int (length ?out)"
      using le en e0 by simp_all
    moreover have "0 \<le> ?b" using le Cons.prems(1) by simp
    ultimately show ?thesis using e0 unfolding splice_def by simp
  qed
  have tk: "take (nat pos) src @ take (nat ?b - nat pos) (drop (nat pos) src) = take (nat ?b) src"
  proof -
    have "nat ?b = nat pos + (nat ?b - nat pos)" using le Cons.prems(1) by simp
    then show ?thesis by (metis take_add)
  qed
  show ?case
    using tk by (simp add: applyLoop_append ih sp)
qed

lemma nonOverlapping_pairs:
  "nonOverlapping rs \<Longrightarrow> x \<in> set rs \<Longrightarrow> y \<in> set rs \<Longrightarrow> beginOffset x \<noteq> beginOffset y \<Longrightarrow>
     disjointEdits x y"
proof (induction rs)
  case Nil then show ?case by simp
next
  case (Cons r rs)
  then show ?case by (auto simp: list_all_iff disjointEdits_def)
qed

lemma ascChain_sorted:
  assumes "\<forall>r \<in> set asc. validEdit src r"
    and "sorted_wrt (\<lambda>x y. beginOffset x < beginOffset y) asc"
    and "\<forall>x \<in> set asc. \<forall>y \<in> set asc. beginOffset x \<noteq> beginOffset y \<longrightarrow> disjointEdits x y"
    and "\<forall>r \<in> set asc. pos \<le> beginOffset r" and "pos \<le> int (length src)"
  shows "ascChain pos asc (int (length src))"
  using assms
proof (induction asc arbitrary: pos)
  case Nil then show ?case by simp
next
  case (Cons r rs)
  have v: "validEdit src r" using Cons.prems(1) by simp
  have "endOffset r \<le> beginOffset y" if "y \<in> set rs" for y
  proof -
    from that Cons.prems(2) have lt: "beginOffset r < beginOffset y" by simp
    with that Cons.prems(3) have "disjointEdits r y" by simp
    moreover have "beginOffset y \<le> endOffset y" using that Cons.prems(1) by (simp add: validEdit_def)
    ultimately show ?thesis using lt by (auto simp: disjointEdits_def)
  qed
  then have "ascChain (endOffset r) rs (int (length src))"
    using Cons.prems v by (intro Cons.IH) (simp_all add: validEdit_def)
  then show ?case using Cons.prems(4) v by (simp add: validEdit_def)
qed

lemma sorted_desc_rev:
  "sorted (map beginOffset asc) \<Longrightarrow> sorted (map (\<lambda>r. - beginOffset r) (rev asc))"
  by (simp add: sorted_map sorted_wrt_rev)

lemma sortSlice_unique:
  assumes "distinct (map beginOffset reps)" and "mset ys = mset reps" and "sortedDescending ys"
  shows "ys = sortSlice reps"
proof -
  have "inj_on (\<lambda>r. - beginOffset r) (set reps)"
    using assms(1) by (auto simp: inj_on_def distinct_map)
  moreover have "sorted (map (\<lambda>r. - beginOffset r) ys)"
    using assms(3) by (simp add: sortedDescending_def sorted_map)
  ultimately have "sort_key (\<lambda>r. - beginOffset r) reps = ys"
    by (rule sort_key_inj_key_eq [OF assms(2) [symmetric]])
  then show ?thesis by (simp add: sortSlice_def)
qed

lemma sortSlice_rev_sort:
  assumes "distinct (map beginOffset reps)"
  shows "sortSlice reps = rev (sort_key beginOffset reps)"
proof -
  have "sortedDescending (rev (sort_key beginOffset reps))"
    using sorted_sort_key [of beginOffset reps]
    by (simp add: sortedDescending_def sorted_map sorted_wrt_rev)
  then show ?thesis using sortSlice_unique [OF assms, of "rev (sort_key beginOffset reps)"] by simp
qed

lemma sortSlice_sorted: "sortedDescending (sortSlice reps)"
  using sorted_sort_key [of "\<lambda>r. - beginOffset r" reps]
  by (simp add: sortedDescending_def sortSlice_def sorted_map)

lemma applyLoop_sorted_edits:
  assumes v: "validEdits src reps" and n: "nonOverlapping reps"
    and d: "distinct (map beginOffset reps)"
  shows "applyLoop src (sortSlice reps) = Inr (replaceRanges src reps)"
proof -
  let ?asc = "sort_key beginOffset reps"
  have s: "set ?asc = set reps" by simp
  have "distinct (map beginOffset ?asc)" using d by (simp add: distinct_map)
  moreover have "sorted (map beginOffset ?asc)" by (rule sorted_sort_key)
  ultimately have "sorted_wrt (<) (map beginOffset ?asc)"
    unfolding strict_sorted_iff by blast
  then have st: "sorted_wrt (\<lambda>x y. beginOffset x < beginOffset y) ?asc"
    by (simp only: sorted_wrt_map)
  have "ascChain 0 ?asc (int (length src))"
  proof (rule ascChain_sorted [OF _ st])
    show "\<forall>r \<in> set ?asc. validEdit src r" using v by (simp add: validEdits_def list_all_iff)
    show "\<forall>x \<in> set ?asc. \<forall>y \<in> set ?asc. beginOffset x \<noteq> beginOffset y \<longrightarrow> disjointEdits x y"
      using nonOverlapping_pairs [OF n] by simp
    show "\<forall>r \<in> set ?asc. 0 \<le> beginOffset r"
      using v by (simp add: validEdits_def list_all_iff validEdit_def)
    show "0 \<le> int (length src)" by simp
  qed
  then have "applyLoop src (rev ?asc) = Inr (take (nat 0) src @ rebuild src 0 ?asc)"
    by (intro applyLoop_rev_ascending) simp_all
  then show ?thesis by (simp add: sortSlice_rev_sort [OF d] replaceRanges_def)
qed

text \<open>
  C2, as it is stated, fails. Two edits whose ranges do not overlap can begin at the same
  offset when one of them is empty: the insertion of \<open>A\<close> at offset 3 and the
  replacement of the bytes 3 and 4 by \<open>B\<close>. \<^verbatim>\<open>sort.Slice\<close> leaves the two in the
  order of the list, the insertion is applied first, and the replacement then cuts the
  buffer at offsets that the insertion has moved: the inserted text is lost and the byte
  \<open>4\<close> of the replaced range stays.
\<close>

theorem applyReplacements_same_begin_counterexample:
  "validEdits ''0123456''
     [\<lparr>beginOffset = 3, endOffset = 3, newValue = ''A''\<rparr>,
      \<lparr>beginOffset = 3, endOffset = 5, newValue = ''B''\<rparr>]
   \<and> nonOverlapping
     [\<lparr>beginOffset = 3, endOffset = 3, newValue = ''A''\<rparr>,
      \<lparr>beginOffset = 3, endOffset = 5, newValue = ''B''\<rparr>]
   \<and> replaceRanges ''0123456''
     [\<lparr>beginOffset = 3, endOffset = 3, newValue = ''A''\<rparr>,
      \<lparr>beginOffset = 3, endOffset = 5, newValue = ''B''\<rparr>] = ''012AB56''
   \<and> applyReplacements
     \<lparr>prefix = ''_11ca33b0'',
      replacements = [\<lparr>beginOffset = 3, endOffset = 3, newValue = ''A''\<rparr>,
                      \<lparr>beginOffset = 3, endOffset = 5, newValue = ''B''\<rparr>],
      source = ''0123456'', spare = [], lineOffsets = [0], localBinds = {}\<rparr> = Inr ''012B456''
   \<and> ''012B456'' \<noteq> ''012AB56'' \<and> ''012B456'' \<noteq> ''012BA56''"
  by (simp add: validEdits_def validEdit_def disjointEdits_def replaceRanges_def
      applyReplacements_def sortSlice_def splice_def)

text \<open>
  C2, amended. Given the source buffer and any list of pending edits that are valid in the
  buffer, pairwise non-overlapping and of pairwise distinct begin offsets (as all
  non-overlapping edits of non-empty ranges are), \<^verbatim>\<open>applyReplacements\<close> applies the
  edits in descending order of their begin offsets, each as
  \<open>buffer[:begin] + newText + buffer[end:]\<close>, and returns the original buffer with the
  range of every edit replaced by its new text. The order is the only descending one, so
  the result does not depend on how \<^verbatim>\<open>sort.Slice\<close> orders equal elements.
\<close>

theorem applyReplacements_replaces_ranges:
  assumes "validEdits (source ctx) (replacements ctx)"
    and "nonOverlapping (replacements ctx)"
    and "distinct (map beginOffset (replacements ctx))"
  shows "applyReplacements ctx = Inr (replaceRanges (source ctx) (replacements ctx))
         \<and> sortedDescending (sortSlice (replacements ctx))
         \<and> mset (sortSlice (replacements ctx)) = mset (replacements ctx)
         \<and> (\<forall>ys. mset ys = mset (replacements ctx) \<and> sortedDescending ys \<longrightarrow>
                applyLoop (source ctx) ys
                  = Inr (replaceRanges (source ctx) (replacements ctx)))"
proof -
  note r = applyLoop_sorted_edits [OF assms]
  have "applyLoop (source ctx) ys = Inr (replaceRanges (source ctx) (replacements ctx))"
    if "mset ys = mset (replacements ctx)" "sortedDescending ys" for ys
    using sortSlice_unique [OF assms(3) that] r by simp
  moreover have "mset (sortSlice (replacements ctx)) = mset (replacements ctx)"
    by (simp add: sortSlice_def)
  ultimately show ?thesis
    using r sortSlice_sorted [of "replacements ctx"] by (simp add: applyReplacements_def)
qed

theorem applyReplacements_replaces_ranges_witness:
  "validEdits ''local x = 1; x + 2''
     [\<lparr>beginOffset = 6, endOffset = 7, newValue = ''_p_x''\<rparr>,
      \<lparr>beginOffset = 13, endOffset = 14, newValue = ''_p_x''\<rparr>]
   \<and> nonOverlapping
     [\<lparr>beginOffset = 6, endOffset = 7, newValue = ''_p_x''\<rparr>,
      \<lparr>beginOffset = 13, endOffset = 14, newValue = ''_p_x''\<rparr>]
   \<and> distinct (map beginOffset
     [\<lparr>beginOffset = 6, endOffset = 7, newValue = ''_p_x''\<rparr>,
      \<lparr>beginOffset = 13, endOffset = 14, newValue = ''_p_x''\<rparr>])
   \<and> applyReplacements
     \<lparr>prefix = ''_p'',
      replacements = [\<lparr>beginOffset = 6, endOffset = 7, newValue = ''_p_x''\<rparr>,
                      \<lparr>beginOffset = 13, endOffset = 14, newValue = ''_p_x''\<rparr>],
      source = ''local x = 1; x + 2'', spare = [], lineOffsets = [0], localBinds = {}\<rparr>
     = Inr ''local _p_x = 1; _p_x + 2''"
proof -
  let ?reps = "[\<lparr>beginOffset = 6, endOffset = 7, newValue = ''_p_x''\<rparr>,
                \<lparr>beginOffset = 13, endOffset = 14, newValue = ''_p_x''\<rparr>]"
  let ?ctx = "\<lparr>prefix = ''_p'', replacements = ?reps,
      source = ''local x = 1; x + 2'', spare = [], lineOffsets = [0], localBinds = {}\<rparr>"
  have v: "validEdits (source ?ctx) (replacements ?ctx)"
    by (simp add: validEdits_def validEdit_def)
  have n: "nonOverlapping (replacements ?ctx)" by (simp add: disjointEdits_def)
  have d: "distinct (map beginOffset (replacements ?ctx))" by simp
  have e: "replaceRanges ''local x = 1; x + 2'' ?reps = ''local _p_x = 1; _p_x + 2''"
    by (simp add: replaceRanges_def)
  from applyReplacements_replaces_ranges [OF v n d] e v n d show ?thesis by simp
qed

text \<open>
  C10. With no pending edit, \<^verbatim>\<open>applyReplacements\<close> returns the source buffer as it is.
\<close>

theorem applyReplacements_empty:
  "replacements ctx = [] \<Longrightarrow> applyReplacements ctx = Inr (source ctx)"
  by (simp add: applyReplacements_def sortSlice_def)

theorem applyReplacements_empty_witness:
  "replacements \<lparr>prefix = ''_p'', replacements = [], source = ''local x = 1; x'',
                   spare = [], lineOffsets = [0], localBinds = {}\<rparr> = []
   \<and> applyReplacements \<lparr>prefix = ''_p'', replacements = [], source = ''local x = 1; x'',
                   spare = [], lineOffsets = [0], localBinds = {}\<rparr> = Inr ''local x = 1; x''"
  using applyReplacements_empty [of "\<lparr>prefix = ''_p'', replacements = [],
      source = ''local x = 1; x'', spare = [], lineOffsets = [0], localBinds = {}\<rparr>"]
  by simp

section \<open>The bind collector\<close>

lemma multiLineSource_offsets: "buildLineOffsets multiLineSource = [0, 12, 19, 22]"
  by (simp add: multiLineSource_def buildLineOffsets_def)

text \<open>
  C1. \<^verbatim>\<open>collectLocalBindReplacement\<close> takes the column of the end from the begin column
  and the length of the name, but resolves it on the line of the parser's end location,
  not on the begin line. On the bind of \<open>x\<close> above the begin offset is 6; resolved on the
  begin line, as the claim and the comment of the code say, the end offset is 7 and the
  span is \<open>x\<close>. The code resolves it on line 3: the end offset is 26, the span is not
  \<open>x\<close>, the bind is dropped, and neither the bind nor its use is renamed.
\<close>

theorem collectLocalBindReplacement_end_on_end_line:
  "IsSet (LocRange multiLineBind)
   \<and> lineOffsets multiLineContext = [0, 12, 19, 22]
   \<and> lineColToOffset (lineOffsets multiLineContext) 0 6 = 6
   \<and> lineColToOffset (lineOffsets multiLineContext) 0 7 = 7
   \<and> sliceBytes (source multiLineContext) (spare multiLineContext) 6 7 = Inr ''x''
   \<and> lineColToOffset (lineOffsets multiLineContext) 2 7 = 26
   \<and> sliceBytes (source multiLineContext) (spare multiLineContext) 6 26
        = Inr (''x = {'' @ [CHR 0x0A] @ ''  a: 1'' @ [CHR 0x0A] @ ''};'' @ [CHR 0x0A] @ ''x + '')
   \<and> collectLocalBindReplacement multiLineContext multiLineBind ''x'' ''_p_x'' = Inr None
   \<and> collectLocalBindReplacements multiLineContext multiLineTree = Inr multiLineContext
   \<and> collectVarReplacements multiLineContext multiLineTree = Inr multiLineContext
   \<and> applyReplacements multiLineContext = Inr multiLineSource"
proof -
  have a: "lineOffsets multiLineContext = [0, 12, 19, 22]"
    by (simp add: multiLineContext_def multiLineSource_offsets)
  have b: "source multiLineContext = multiLineSource" "spare multiLineContext = []"
    "replacements multiLineContext = []" "localBinds multiLineContext = {}"
    by (simp_all add: multiLineContext_def)
  have s: "IsSet (LocRange multiLineBind)" by (simp add: multiLineBind_def IsSet_def)
  have o1: "lineColToOffset [0, 12, 19, 22] 0 6 = 6" "lineColToOffset [0, 12, 19, 22] 0 7 = 7"
    "lineColToOffset [0, 12, 19, 22] 2 7 = 26"
    by (simp_all add: lineColToOffset_def wrapInt_def)
  have s1: "sliceBytes multiLineSource [] 6 7 = Inr ''x''"
    by (simp add: sliceBytes_def multiLineSource_def)
  have s2: "sliceBytes multiLineSource [] 6 26
        = Inr (''x = {'' @ [CHR 0x0A] @ ''  a: 1'' @ [CHR 0x0A] @ ''};'' @ [CHR 0x0A] @ ''x + '')"
    by (simp add: sliceBytes_def multiLineSource_def)
  have c: "collectLocalBindReplacement multiLineContext multiLineBind ''x'' ''_p_x'' = Inr None"
    by (simp add: collectLocalBindReplacement_def s a b Let_def multiLineBind_def IsSet_def
        wrapInt_def o1 s2)
  have c': "prefix multiLineContext = ''_p''" by (simp add: multiLineContext_def)
  have v: "Variable multiLineBind = ''x''" by (simp add: multiLineBind_def)
  have p1: "collectLocalBindReplacements multiLineContext multiLineTree = Inr multiLineContext"
    by (simp add: multiLineTree_def c' v c)
  have p2: "collectVarReplacements multiLineContext multiLineTree = Inr multiLineContext"
    by (simp add: multiLineTree_def collectVar_def b)
  have p3: "applyReplacements multiLineContext = Inr multiLineSource"
    by (simp add: applyReplacements_def sortSlice_def b)
  show ?thesis using a b s o1 s1 s2 c p1 p2 p3 by simp
qed

section \<open>The whole run\<close>

text \<open>
  C3, as it is stated, fails. The output begins with a comment that carries the time of the
  run: two runs of \<^verbatim>\<open>main\<close> on the same bytes of the same file, one second apart,
  write different bytes.
\<close>

theorem main_clock_counterexample:
  "main (Some (''{}'', [])) (Some (Other \<lparr>Begin = \<lparr>Line = 1, Column = 1\<rparr>,
                                          End = \<lparr>Line = 1, Column = 3\<rparr>\<rparr> []))
        ''2024-01-01T00:00:00Z'' True True
     = Inr (''// Auto-generated by jsonnet-bundler at 2024-01-01T00:00:00Z for input/konn/main.libsonnet''
            @ [CHR 0x0A] @ ''{}'')
   \<and> main (Some (''{}'', [])) (Some (Other \<lparr>Begin = \<lparr>Line = 1, Column = 1\<rparr>,
                                          End = \<lparr>Line = 1, Column = 3\<rparr>\<rparr> []))
        ''2024-01-01T00:00:01Z'' True True
     = Inr (''// Auto-generated by jsonnet-bundler at 2024-01-01T00:00:01Z for input/konn/main.libsonnet''
            @ [CHR 0x0A] @ ''{}'')
   \<and> main (Some (''{}'', [])) (Some (Other \<lparr>Begin = \<lparr>Line = 1, Column = 1\<rparr>,
                                          End = \<lparr>Line = 1, Column = 3\<rparr>\<rparr> []))
        ''2024-01-01T00:00:00Z'' True True
     \<noteq> main (Some (''{}'', [])) (Some (Other \<lparr>Begin = \<lparr>Line = 1, Column = 1\<rparr>,
                                          End = \<lparr>Line = 1, Column = 3\<rparr>\<rparr> []))
        ''2024-01-01T00:00:01Z'' True True"
  by (simp add: main_def engine_def applyReplacements_def sortSlice_def header_def)

text \<open>
  C3, amended. For every file, two runs of the engine on the same bytes, with the same file
  name and the same syntax tree, either fail in the same way or write outputs that differ
  in the time of their first line only: each output is the header comment of its own run
  followed by the same bytes. With the same reading of the clock the two outputs are the
  same.
\<close>

theorem engine_output_after_header:
  "(\<exists>f. engine src readFile importAST now1 mkdirOk writeOk = Inl f
        \<and> engine src readFile importAST now2 mkdirOk writeOk = Inl f)
   \<or> (\<exists>body. engine src readFile importAST now1 mkdirOk writeOk = Inr (header now1 src @ body)
        \<and> engine src readFile importAST now2 mkdirOk writeOk = Inr (header now2 src @ body))"
  by (auto simp: engine_def Let_def split: option.splits sum.splits prod.splits)

end
